theory Spec2Isabelle
  imports Main
begin

section \<open>Data model\<close>

text \<open>
  Modelled from the spec: the Prisma schema, which declares the tables, is not among the
  sources.  The rows below have the fields the actions mention in their queries and the
  specification lists in its data model: an account has a name, a type (CURRENT or
  SAVINGS), a fixed-point decimal balance and the \<open>isDefault\<close> flag; a transaction has a
  type (INCOME or EXPENSE), a fixed-point decimal amount and the account it is posted
  against; both belong to a user.

  \<open>balance\<close> and \<open>amount\<close> are Prisma Decimal columns: the client hands them out as
  Decimal objects (the actions call \<open>toNumber()\<close> on them).  The model carries the
  whole-number Decimal values as \<open>int\<close>; on these, and below \<open>2 ^ 53\<close>, JavaScript
  Number arithmetic, \<open>Number\<close>-to-string conversion and \<open>Decimal.valueOf\<close> are exact
  and are what the definitions below compute.
\<close>

type_synonym decimal = int
type_synonym number = int

datatype account_type = CURRENT | SAVINGS

datatype transaction_type = INCOME | EXPENSE

record user =
  user_id :: string
  clerkUserId :: string

record account =
  acc_id :: string
  acc_userId :: string
  acc_name :: string
  acc_type :: account_type
  balance :: decimal
  isDefault :: bool
  createdAt :: nat

record transaction =
  tx_id :: string
  tx_userId :: string
  tx_accountId :: string
  tx_type :: transaction_type
  amount :: decimal

record db =
  users :: "user list"
  accounts :: "account list"
  transactions :: "transaction list"

section \<open>Errors and the world outside the store\<close>

text \<open>
  Every awaited store call is a place where the store can reject; \<open>callsite\<close> names
  them.  The context of one request holds what the collaborators answer: the Clerk user
  id of \<open>auth()\<close>, the ArcJet decision, the id and creation time the store gives a new
  row, and the call sites at which the store rejects.
\<close>

datatype callsite =
    FindUser
  | FindTransactions
  | DeleteTransactions
  | UpdateBalance string
  | ClearDefaults
  | SetDefault
  | FindAccounts
  | CreateRow

datatype error =
    Unauthorized
  | TooManyRequests
  | RequestBlocked
  | UserNotFound
  | InvalidBalance
  | StorageFailure callsite
  | RecordNotFound
  | ValidationError
  | UniqueConstraint

datatype decision = Allowed | DeniedRateLimit | DeniedOther

record ctx =
  auth_userId :: "string option"
  arcjet :: decision
  gen_id :: string
  now :: nat
  fails :: "callsite \<Rightarrow> bool"

section \<open>JavaScript values of the balance aggregation\<close>

text \<open>
  The reducer of \<open>bulkDeleteTransactions\<close> adds with the JavaScript operator \<open>+\<close>.
  Its operands are a Number (the literal \<open>0\<close>, or \<open>-transaction.amount\<close>, where unary
  minus converts the Decimal object to a Number), a Decimal object
  (\<open>transaction.amount\<close> itself) or a string.  \<open>+\<close> first converts an object to a
  primitive by its \<open>valueOf\<close>, which for a Decimal is its decimal string; if either
  primitive is a string, \<open>+\<close> concatenates, otherwise it adds numbers.

  Range of the number model.  The definitions of this section are the runtime's on
  whole-number amounts of magnitude below \<open>2 ^ 53\<close> whose per-account sums stay below
  \<open>2 ^ 53\<close>: there unary minus and Number addition are exact, and \<open>Decimal.valueOf\<close>
  and the Number-to-string conversion write the plain digits.  Beyond that range the
  runtime differs from them (a Number rounds to the nearest double from \<open>2 ^ 53\<close> on,
  both conversions switch to exponent notation from \<open>10 ^ 21\<close> on), and amounts with
  decimal places are not values of the model at all.  Every evaluation below is at
  amounts inside the range, and the one general statement about balances,
  \<open>conservation_one_transaction_per_account\<close>, is restricted to it.
\<close>

datatype jsval = JNum number | JStr string | JDec decimal

fun digits :: "nat \<Rightarrow> string" where
  "digits n = (if n < 10 then [''0123456789'' ! n]
               else digits (n div 10) @ [''0123456789'' ! (n mod 10)])"

declare digits.simps [simp del]

definition show_int :: "int \<Rightarrow> string" where
  "show_int x = (if x < 0 then CHR ''-'' # digits (nat (- x)) else digits (nat x))"

definition valueOf :: "decimal \<Rightarrow> string" where
  "valueOf d = show_int d"

definition toPrimitive :: "jsval \<Rightarrow> jsval" where
  "toPrimitive v = (case v of JDec d \<Rightarrow> JStr (valueOf d) | _ \<Rightarrow> v)"

definition toString :: "jsval \<Rightarrow> string" where
  "toString v = (case v of JNum n \<Rightarrow> show_int n | JStr s \<Rightarrow> s | JDec d \<Rightarrow> valueOf d)"

definition js_plus :: "jsval \<Rightarrow> jsval \<Rightarrow> jsval" where
  "js_plus a b =
     (case (toPrimitive a, toPrimitive b) of
        (JNum x, JNum y) \<Rightarrow> JNum (x + y)
      | (p, q) \<Rightarrow> JStr (toString p @ toString q))"

definition js_or_zero :: "jsval option \<Rightarrow> jsval" where
  "js_or_zero v =
     (case v of
        None \<Rightarrow> JNum 0
      | Some (JNum n) \<Rightarrow> (if n = 0 then JNum 0 else JNum n)
      | Some (JStr s) \<Rightarrow> (if s = [] then JNum 0 else JStr s)
      | Some (JDec d) \<Rightarrow> JDec d)"

text \<open>
  What the store makes of the value handed to \<open>increment\<close> on a Decimal column: a
  Number is taken as it is, a string must be a decimal numeral (an optional sign, then
  digits; leading zeros are allowed), anything else is rejected.
\<close>

definition digit_val :: "char \<Rightarrow> nat option" where
  "digit_val c = map_of (zip ''0123456789'' [0 ..< 10]) c"

fun parse_digits :: "nat \<Rightarrow> string \<Rightarrow> nat option" where
  "parse_digits acc [] = Some acc"
| "parse_digits acc (c # cs) =
     (case digit_val c of None \<Rightarrow> None | Some d \<Rightarrow> parse_digits (10 * acc + d) cs)"

definition parse_nat :: "string \<Rightarrow> nat option" where
  "parse_nat s = (if s = [] then None else parse_digits 0 s)"

definition parse_decimal :: "string \<Rightarrow> decimal option" where
  "parse_decimal s =
     (case s of
        [] \<Rightarrow> None
      | c # cs \<Rightarrow>
          if c = CHR ''-'' then map_option (\<lambda>n. - int n) (parse_nat cs)
          else if c = CHR ''+'' then map_option int (parse_nat cs)
          else map_option int (parse_nat s))"

definition decimal_input :: "jsval \<Rightarrow> decimal option" where
  "decimal_input v = (case v of JNum n \<Rightarrow> Some n | JDec d \<Rightarrow> Some d | JStr s \<Rightarrow> parse_decimal s)"

section \<open>Store calls\<close>

text \<open>
  \<open>findUnique\<close> answers the row or nothing; \<open>update\<close> changes the one row its unique
  \<open>where\<close> selects and rejects when there is none; \<open>updateMany\<close> and \<open>deleteMany\<close>
  accept any number of rows, none included.
\<close>

definition auth :: "ctx \<Rightarrow> error + string" where
  "auth c =
     (case auth_userId c of
        None \<Rightarrow> Inl Unauthorized
      | Some userId \<Rightarrow> if userId = [] then Inl Unauthorized else Inr userId)"

definition user_findUnique :: "ctx \<Rightarrow> db \<Rightarrow> string \<Rightarrow> error + user option" where
  "user_findUnique c d cid =
     (if fails c FindUser then Inl (StorageFailure FindUser)
      else Inr (find (\<lambda>u. clerkUserId u = cid) (users d)))"

fun update_first :: "('a \<Rightarrow> bool) \<Rightarrow> ('a \<Rightarrow> 'a) \<Rightarrow> 'a list \<Rightarrow> ('a \<times> 'a list) option" where
  "update_first P f [] = None"
| "update_first P f (x # xs) =
     (if P x then Some (f x, f x # xs)
      else map_option (\<lambda>(y, ys). (y, x # ys)) (update_first P f xs))"

definition clear_defaults :: "string \<Rightarrow> account list \<Rightarrow> account list" where
  "clear_defaults uid accs =
     map (\<lambda>a. if acc_userId a = uid \<and> isDefault a then a\<lparr>isDefault := False\<rparr> else a) accs"

definition account_updateMany :: "ctx \<Rightarrow> string \<Rightarrow> db \<Rightarrow> error + db" where
  "account_updateMany c uid d =
     (if fails c ClearDefaults then Inl (StorageFailure ClearDefaults)
      else Inr (d\<lparr>accounts := clear_defaults uid (accounts d)\<rparr>))"

definition account_update :: "ctx \<Rightarrow> string \<Rightarrow> string \<Rightarrow> db \<Rightarrow> error + account \<times> db" where
  "account_update c accountId uid d =
     (if fails c SetDefault then Inl (StorageFailure SetDefault)
      else case update_first (\<lambda>a. acc_id a = accountId \<and> acc_userId a = uid)
                  (\<lambda>a. a\<lparr>isDefault := True\<rparr>) (accounts d) of
             None \<Rightarrow> Inl RecordNotFound
           | Some (a, accs) \<Rightarrow> Inr (a, d\<lparr>accounts := accs\<rparr>))"

definition account_findMany :: "ctx \<Rightarrow> db \<Rightarrow> string \<Rightarrow> error + account list" where
  "account_findMany c d uid =
     (if fails c FindAccounts then Inl (StorageFailure FindAccounts)
      else Inr (filter (\<lambda>a. acc_userId a = uid) (accounts d)))"

definition transaction_findMany ::
  "ctx \<Rightarrow> db \<Rightarrow> string list \<Rightarrow> string \<Rightarrow> error + transaction list" where
  "transaction_findMany c d ids uid =
     (if fails c FindTransactions then Inl (StorageFailure FindTransactions)
      else Inr (filter (\<lambda>t. tx_id t \<in> set ids \<and> tx_userId t = uid) (transactions d)))"

definition transaction_deleteMany :: "ctx \<Rightarrow> string list \<Rightarrow> string \<Rightarrow> db \<Rightarrow> error + db" where
  "transaction_deleteMany c ids uid d =
     (if fails c DeleteTransactions then Inl (StorageFailure DeleteTransactions)
      else Inr (d\<lparr>transactions :=
                  filter (\<lambda>t. \<not> (tx_id t \<in> set ids \<and> tx_userId t = uid)) (transactions d)\<rparr>))"

definition account_increment :: "ctx \<Rightarrow> string \<Rightarrow> jsval \<Rightarrow> db \<Rightarrow> error + db" where
  "account_increment c accountId balanceChange d =
     (if fails c (UpdateBalance accountId) then Inl (StorageFailure (UpdateBalance accountId))
      else case decimal_input balanceChange of
             None \<Rightarrow> Inl ValidationError
           | Some delta \<Rightarrow>
               (case update_first (\<lambda>a. acc_id a = accountId)
                       (\<lambda>a. a\<lparr>balance := balance a + delta\<rparr>) (accounts d) of
                  None \<Rightarrow> Inl RecordNotFound
                | Some (a, accs) \<Rightarrow> Inr (d\<lparr>accounts := accs\<rparr>)))"

text \<open>
  \<open>$transaction\<close> runs its callback on the store and commits what the callback has
  written when it returns; when the callback throws, the store is as it was before.
\<close>

definition db_transaction :: "(db \<Rightarrow> error + db) \<Rightarrow> db \<Rightarrow> (error + unit) \<times> db" where
  "db_transaction body d = (case body d of Inl e \<Rightarrow> (Inl e, d) | Inr d' \<Rightarrow> (Inr (), d'))"

section \<open>Serialization\<close>

text \<open>
  \<open>serializeDecimal\<close> (in the dashboard actions: \<open>serializeTransaction\<close>) replaces a
  Decimal field by \<open>toNumber()\<close> of it.  A Decimal object is truthy whatever its value,
  so the field is always converted.
\<close>

definition toNumber :: "decimal \<Rightarrow> number" where
  "toNumber x = x"

definition serializeDecimal :: "account \<Rightarrow> account" where
  "serializeDecimal obj = obj\<lparr>balance := toNumber (balance obj)\<rparr>"

section \<open>bulkDeleteTransactions\<close>

text \<open>
  The reducer's accumulator is an object keyed by account id; its entries are listed in
  the order the keys were first assigned, which is the order \<open>Object.entries\<close> walks
  them in (for ids that are not array indices).
\<close>

definition change :: "transaction \<Rightarrow> jsval" where
  "change t = (if tx_type t = EXPENSE then JDec (amount t) else JNum (- amount t))"

fun assign :: "string \<Rightarrow> jsval \<Rightarrow> (string \<times> jsval) list \<Rightarrow> (string \<times> jsval) list" where
  "assign k v [] = [(k, v)]"
| "assign k v (p # ps) = (if fst p = k then (k, v) # ps else p # assign k v ps)"

definition accountBalanceChanges :: "transaction list \<Rightarrow> (string \<times> jsval) list" where
  "accountBalanceChanges txs =
     foldl (\<lambda>acc t. assign (tx_accountId t)
                      (js_plus (js_or_zero (map_of acc (tx_accountId t))) (change t)) acc)
       [] txs"

fun apply_changes :: "ctx \<Rightarrow> (string \<times> jsval) list \<Rightarrow> db \<Rightarrow> error + db" where
  "apply_changes c [] d = Inr d"
| "apply_changes c ((accountId, balanceChange) # rest) d =
     (case account_increment c accountId balanceChange d of
        Inl e \<Rightarrow> Inl e
      | Inr d' \<Rightarrow> apply_changes c rest d')"

text \<open>
  The result pairs what the caller receives with the store after the call.  The action
  catches every error and returns \<open>{success: false, error}\<close>: that payload is \<open>Inl\<close>,
  \<open>{success: true}\<close> is \<open>Inr ()\<close>.  \<open>revalidatePath\<close> marks cached pages as stale and
  touches neither the store nor the answer; it has no counterpart here.
\<close>

definition bulkDeleteTransactions :: "ctx \<Rightarrow> db \<Rightarrow> string list \<Rightarrow> (error + unit) \<times> db" where
  "bulkDeleteTransactions c d transactionIds =
     (case auth c of
        Inl e \<Rightarrow> (Inl e, d)
      | Inr userId \<Rightarrow>
     (case user_findUnique c d userId of
        Inl e \<Rightarrow> (Inl e, d)
      | Inr None \<Rightarrow> (Inl UserNotFound, d)
      | Inr (Some user) \<Rightarrow>
     (case transaction_findMany c d transactionIds (user_id user) of
        Inl e \<Rightarrow> (Inl e, d)
      | Inr txs \<Rightarrow>
          db_transaction
            (\<lambda>tx. case transaction_deleteMany c transactionIds (user_id user) tx of
                     Inl e \<Rightarrow> Inl e
                   | Inr tx' \<Rightarrow> apply_changes c (accountBalanceChanges txs) tx')
            d)))"

section \<open>updateDefaultAccount\<close>

text \<open>
  The two store calls are awaited one after the other on \<open>db\<close> itself, outside any
  \<open>$transaction\<close>: what the first has written stays written when the second rejects.
  \<open>Inl\<close> is the payload \<open>{success: false, error}\<close>.
\<close>

definition updateDefaultAccount :: "ctx \<Rightarrow> db \<Rightarrow> string \<Rightarrow> (error + account) \<times> db" where
  "updateDefaultAccount c d accountId =
     (case auth c of
        Inl e \<Rightarrow> (Inl e, d)
      | Inr userId \<Rightarrow>
     (case user_findUnique c d userId of
        Inl e \<Rightarrow> (Inl e, d)
      | Inr None \<Rightarrow> (Inl UserNotFound, d)
      | Inr (Some user) \<Rightarrow>
     (case account_updateMany c (user_id user) d of
        Inl e \<Rightarrow> (Inl e, d)
      | Inr d1 \<Rightarrow>
     (case account_update c accountId (user_id user) d1 of
        Inl e \<Rightarrow> (Inl e, d1)
      | Inr (account, d2) \<Rightarrow> (Inr (serializeDecimal account), d2)))))"

section \<open>createAccount\<close>

text \<open>
  The form data: name, type and balance as the strings the form holds, and the
  \<open>isDefault\<close> switch (a boolean, \<open>false\<close> unless switched on).  \<open>parseFloat\<close> is the
  JavaScript builtin and a parameter here; \<open>None\<close> is its answer \<open>NaN\<close>.  The store
  rejects a type that is not one of the enumeration's names, and a row id already taken.
  \<open>Inl\<close> is the error the action throws.
\<close>

record account_data =
  d_name :: string
  d_type :: string
  d_balance :: string
  d_isDefault :: bool

definition parse_type :: "string \<Rightarrow> account_type option" where
  "parse_type s =
     (if s = ''CURRENT'' then Some CURRENT else if s = ''SAVINGS'' then Some SAVINGS else None)"

definition account_create ::
  "ctx \<Rightarrow> account_data \<Rightarrow> number \<Rightarrow> string \<Rightarrow> bool \<Rightarrow> db \<Rightarrow> error + account \<times> db" where
  "account_create c data balanceFloat uid shouldBeDefault d =
     (if fails c CreateRow then Inl (StorageFailure CreateRow)
      else case parse_type (d_type data) of
             None \<Rightarrow> Inl ValidationError
           | Some ty \<Rightarrow>
               if find (\<lambda>a. acc_id a = gen_id c) (accounts d) \<noteq> None then Inl UniqueConstraint
               else let a = \<lparr>acc_id = gen_id c, acc_userId = uid, acc_name = d_name data,
                              acc_type = ty, balance = balanceFloat,
                              isDefault = shouldBeDefault, createdAt = now c\<rparr>
                    in Inr (a, d\<lparr>accounts := accounts d @ [a]\<rparr>))"

definition createAccount ::
  "(string \<Rightarrow> number option) \<Rightarrow> ctx \<Rightarrow> db \<Rightarrow> account_data \<Rightarrow> (error + account) \<times> db" where
  "createAccount parseFloat c d data =
     (case auth c of
        Inl e \<Rightarrow> (Inl e, d)
      | Inr userId \<Rightarrow>
     (case arcjet c of
        DeniedRateLimit \<Rightarrow> (Inl TooManyRequests, d)
      | DeniedOther \<Rightarrow> (Inl RequestBlocked, d)
      | Allowed \<Rightarrow>
     (case user_findUnique c d userId of
        Inl e \<Rightarrow> (Inl e, d)
      | Inr None \<Rightarrow> (Inl UserNotFound, d)
      | Inr (Some user) \<Rightarrow>
     (case parseFloat (d_balance data) of
        None \<Rightarrow> (Inl InvalidBalance, d)
      | Some balanceFloat \<Rightarrow>
     (case account_findMany c d (user_id user) of
        Inl e \<Rightarrow> (Inl e, d)
      | Inr existingAccounts \<Rightarrow>
          let shouldBeDefault =
                (if length existingAccounts = 0 then True else d_isDefault data)
          in
     (case (if shouldBeDefault then account_updateMany c (user_id user) d else Inr d) of
        Inl e \<Rightarrow> (Inl e, d)
      | Inr d1 \<Rightarrow>
     (case account_create c data balanceFloat (user_id user) shouldBeDefault d1 of
        Inl e \<Rightarrow> (Inl e, d1)
      | Inr (account, d2) \<Rightarrow> (Inr (serializeDecimal account), d2))))))))"

section \<open>getUserAccounts\<close>

text \<open>
  Only the account query is inside \<open>try\<close>; its \<open>catch\<close> writes the message to the
  console and falls off the end of the function, so the caller receives \<open>undefined\<close>
  (\<open>Inr None\<close>).  The second component is what was written to the console.  Each row
  comes with the number of its transactions, newest account first.
\<close>

definition count_transactions :: "db \<Rightarrow> account \<Rightarrow> nat" where
  "count_transactions d a = length (filter (\<lambda>t. tx_accountId t = acc_id a) (transactions d))"

definition getUserAccounts ::
  "ctx \<Rightarrow> db \<Rightarrow> (error + (account \<times> nat) list option) \<times> error list" where
  "getUserAccounts c d =
     (case auth c of
        Inl e \<Rightarrow> (Inl e, [])
      | Inr userId \<Rightarrow>
     (case user_findUnique c d userId of
        Inl e \<Rightarrow> (Inl e, [])
      | Inr None \<Rightarrow> (Inl UserNotFound, [])
      | Inr (Some user) \<Rightarrow>
     (case account_findMany c d (user_id user) of
        Inl e \<Rightarrow> (Inr None, [e])
      | Inr accs \<Rightarrow>
          (Inr (Some (map (\<lambda>a. (serializeDecimal a, count_transactions d a))
                       (rev (sort_key createdAt accs)))), []))))"

section \<open>Properties of the store\<close>

definition calling_user :: "ctx \<Rightarrow> db \<Rightarrow> user option" where
  "calling_user c d =
     (case auth c of Inl e \<Rightarrow> None | Inr userId \<Rightarrow> find (\<lambda>u. clerkUserId u = userId) (users d))"

definition accounts_of :: "string \<Rightarrow> db \<Rightarrow> account list" where
  "accounts_of uid d = filter (\<lambda>a. acc_userId a = uid) (accounts d)"

definition defaults_of :: "string \<Rightarrow> db \<Rightarrow> account list" where
  "defaults_of uid d = filter isDefault (accounts_of uid d)"

definition single_default :: "string \<Rightarrow> db \<Rightarrow> bool" where
  "single_default uid d =
     (length (defaults_of uid d) = (if accounts_of uid d = [] then 0 else 1))"

definition no_faults :: "ctx" where
  "no_faults = \<lparr>auth_userId = Some ''clerk_1'', arcjet = Allowed, gen_id = ''acc_new'',
                now = 7, fails = (\<lambda>s. False)\<rparr>"

text \<open>
  The reversal delta of the specification: what deleting a transaction should give back
  to, or take from, its account.
\<close>

definition reversal_delta :: "transaction \<Rightarrow> decimal" where
  "reversal_delta t = (if tx_type t = EXPENSE then amount t else - amount t)"

definition resolved :: "string \<Rightarrow> string list \<Rightarrow> db \<Rightarrow> transaction list" where
  "resolved uid ids d =
     filter (\<lambda>t. tx_id t \<in> set ids \<and> tx_userId t = uid) (transactions d)"

definition foreign :: "ctx \<Rightarrow> db \<Rightarrow> transaction \<Rightarrow> bool" where
  "foreign c d t =
     (case calling_user c d of None \<Rightarrow> True | Some u \<Rightarrow> tx_userId t \<noteq> user_id u)"

definition fail_at :: "callsite \<Rightarrow> ctx" where
  "fail_at s = no_faults\<lparr>fails := (\<lambda>x. x = s)\<rparr>"

section \<open>A small store\<close>

text \<open>
  Three users.  The first owns the accounts X (the default, balance 100) and Y (balance
  50) and three transactions; the second owns account Z and one transaction; the third
  owns nothing yet.  \<open>no_faults\<close> is a request of the first user, \<open>first_time\<close> one of
  the third, both with a store that rejects nowhere; \<open>fail_at s\<close> is a request of the
  first user during which the store rejects at call site \<open>s\<close>.
\<close>

definition u1 :: user where
  "u1 = \<lparr>user_id = ''user_1'', clerkUserId = ''clerk_1''\<rparr>"

definition u2 :: user where
  "u2 = \<lparr>user_id = ''user_2'', clerkUserId = ''clerk_2''\<rparr>"

definition u3 :: user where
  "u3 = \<lparr>user_id = ''user_3'', clerkUserId = ''clerk_3''\<rparr>"

definition accX :: account where
  "accX = \<lparr>acc_id = ''acc_x'', acc_userId = ''user_1'', acc_name = ''X'',
            acc_type = CURRENT, balance = 100, isDefault = True, createdAt = 1\<rparr>"

definition accY :: account where
  "accY = \<lparr>acc_id = ''acc_y'', acc_userId = ''user_1'', acc_name = ''Y'',
            acc_type = SAVINGS, balance = 50, isDefault = False, createdAt = 2\<rparr>"

definition accZ :: account where
  "accZ = \<lparr>acc_id = ''acc_z'', acc_userId = ''user_2'', acc_name = ''Z'',
            acc_type = CURRENT, balance = 10, isDefault = True, createdAt = 3\<rparr>"

definition t1 :: transaction where
  "t1 = \<lparr>tx_id = ''t1'', tx_userId = ''user_1'', tx_accountId = ''acc_x'',
          tx_type = EXPENSE, amount = 30\<rparr>"

definition t2 :: transaction where
  "t2 = \<lparr>tx_id = ''t2'', tx_userId = ''user_1'', tx_accountId = ''acc_x'',
          tx_type = EXPENSE, amount = 20\<rparr>"

definition t3 :: transaction where
  "t3 = \<lparr>tx_id = ''t3'', tx_userId = ''user_1'', tx_accountId = ''acc_y'',
          tx_type = INCOME, amount = 5\<rparr>"

definition t4 :: transaction where
  "t4 = \<lparr>tx_id = ''t4'', tx_userId = ''user_2'', tx_accountId = ''acc_z'',
          tx_type = EXPENSE, amount = 7\<rparr>"

definition db0 :: db where
  "db0 = \<lparr>users = [u1, u2, u3], accounts = [accX, accY, accZ],
           transactions = [t1, t2, t3, t4]\<rparr>"

text \<open>
  \<open>db0\<close> once the first user's default flag has been cleared and nothing else has
  happened; and \<open>db0\<close> after the deletion of \<open>t1\<close> and \<open>t2\<close> with 3020 added to the
  balance of X.
\<close>

definition db0_cleared :: db where
  "db0_cleared = db0\<lparr>accounts := [accX\<lparr>isDefault := False\<rparr>, accY, accZ]\<rparr>"

definition db0_concatenated :: db where
  "db0_concatenated = db0\<lparr>accounts := [accX\<lparr>balance := 3120\<rparr>, accY, accZ],
                            transactions := [t3, t4]\<rparr>"

definition t5 :: transaction where
  "t5 = \<lparr>tx_id = ''t5'', tx_userId = ''user_1'', tx_accountId = ''acc_x'',
          tx_type = INCOME, amount = 5\<rparr>"



definition form_default :: account_data where
  "form_default = \<lparr>d_name = ''Cash'', d_type = ''CURRENT'', d_balance = ''0'',
                    d_isDefault = True\<rparr>"


text \<open>
  An instance of the \<open>parseFloat\<close> parameter for the examples: it agrees with the
  builtin on signed whole-number numerals, the only strings the examples parse.
\<close>

definition numeral_parseFloat :: "string \<Rightarrow> number option" where
  "numeral_parseFloat s = parse_decimal s"

section \<open>The ownership filter of the bulk delete\<close>

lemma calling_user_transactions [simp]:
  "calling_user c (d\<lparr>transactions := ts\<rparr>) = calling_user c d"
  by (simp add: calling_user_def split: sum.splits)

lemma account_increment_frame:
  "account_increment c k v (d\<lparr>transactions := ts\<rparr>) =
     map_sum id (\<lambda>r. r\<lparr>transactions := ts\<rparr>) (account_increment c k v d)"
  by (simp add: account_increment_def split: option.splits prod.splits)

lemma apply_changes_frame:
  "apply_changes c chs (d\<lparr>transactions := ts\<rparr>) =
     map_sum id (\<lambda>r. r\<lparr>transactions := ts\<rparr>) (apply_changes c chs d)"
proof (induction chs arbitrary: d)
  case Nil
  show ?case by simp
next
  case (Cons p chs)
  obtain k v where p: "p = (k, v)" by (cases p)
  show ?case
    by (cases "account_increment c k v d") (simp_all add: p account_increment_frame Cons.IH)
qed

lemma account_increment_transactions:
  "account_increment c k v d = Inr d' \<Longrightarrow> transactions d' = transactions d"
  by (auto simp: account_increment_def split: if_splits option.splits prod.splits)

lemma apply_changes_transactions:
  "apply_changes c chs d = Inr d' \<Longrightarrow> transactions d' = transactions d"
proof (induction chs arbitrary: d)
  case Nil
  then show ?case by simp
next
  case (Cons p chs)
  obtain k v where p: "p = (k, v)" by (cases p)
  from Cons.prems obtain d1 where
    s1: "account_increment c k v d = Inr d1" and s2: "apply_changes c chs d1 = Inr d'"
    by (auto simp: p split: sum.splits)
  from Cons.IH [OF s2] account_increment_transactions [OF s1] show ?case by simp
qed

lemma bulkDelete_failed_early:
  assumes "calling_user c d = None \<or> fails c FindUser \<or> fails c FindTransactions
     \<or> fails c DeleteTransactions"
  shows "\<exists>e. \<forall>ts. bulkDeleteTransactions c (d\<lparr>transactions := ts\<rparr>) ids
                   = (Inl e, d\<lparr>transactions := ts\<rparr>)"
proof (cases "auth c")
  case (Inl e)
  then show ?thesis
    by (simp add: bulkDeleteTransactions_def)
next
  case uid: (Inr userId)
  show ?thesis
  proof (cases "fails c FindUser")
    case True
    with uid show ?thesis
      by (simp add: bulkDeleteTransactions_def user_findUnique_def)
  next
    case nf: False
    show ?thesis
    proof (cases "find (\<lambda>u. clerkUserId u = userId) (users d)")
      case None
      with uid nf show ?thesis
        by (simp add: bulkDeleteTransactions_def user_findUnique_def)
    next
      case (Some u)
      with uid nf assms have "fails c FindTransactions \<or> fails c DeleteTransactions"
        by (simp add: calling_user_def)
      with uid nf Some show ?thesis
        by (cases "fails c FindTransactions")
           (simp_all add: bulkDeleteTransactions_def user_findUnique_def
              transaction_findMany_def transaction_deleteMany_def db_transaction_def)
    qed
  qed
qed

lemma bulkDelete_run:
  assumes u: "calling_user c d = Some u"
    and nf: "\<not> fails c FindUser" "\<not> fails c FindTransactions" "\<not> fails c DeleteTransactions"
    and ts: "filter (\<lambda>t. tx_id t \<in> set ids \<and> tx_userId t = user_id u) ts = txs"
  shows "bulkDeleteTransactions c (d\<lparr>transactions := ts\<rparr>) ids =
     (case apply_changes c (accountBalanceChanges txs) d of
        Inl e \<Rightarrow> (Inl e, d\<lparr>transactions := ts\<rparr>)
      | Inr d' \<Rightarrow>
          (Inr (), d'\<lparr>transactions :=
             filter (\<lambda>t. \<not> (tx_id t \<in> set ids \<and> tx_userId t = user_id u)) ts\<rparr>))"
proof -
  from u obtain userId where a: "auth c = Inr userId"
    and fu: "find (\<lambda>u. clerkUserId u = userId) (users d) = Some u"
    by (auto simp: calling_user_def split: sum.splits)
  show ?thesis
    by (cases "apply_changes c (accountBalanceChanges txs) d")
       (simp_all add: bulkDeleteTransactions_def a fu nf ts user_findUnique_def
          transaction_findMany_def transaction_deleteMany_def db_transaction_def
          apply_changes_frame)
qed

text \<open>
  C6.  A transaction is foreign to a call when its owner is not the calling user (or
  when there is no calling user).  Whatever ids are requested and whatever the outcome,
  the foreign transactions after the call are exactly the foreign transactions before
  it, and the accounts after the call, as well as the answer, are what they would be
  had the store held no foreign transaction at all: a foreign transaction is never
  deleted and moves no balance.
\<close>

theorem ownership_filter:
  "filter (foreign c d) (transactions (snd (bulkDeleteTransactions c d ids)))
     = filter (foreign c d) (transactions d)
   \<and> accounts (snd (bulkDeleteTransactions c d ids))
     = accounts (snd (bulkDeleteTransactions c
         (d\<lparr>transactions := filter (\<lambda>t. \<not> foreign c d t) (transactions d)\<rparr>) ids))
   \<and> fst (bulkDeleteTransactions c d ids)
     = fst (bulkDeleteTransactions c
         (d\<lparr>transactions := filter (\<lambda>t. \<not> foreign c d t) (transactions d)\<rparr>) ids)"
proof (cases "calling_user c d = None \<or> fails c FindUser \<or> fails c FindTransactions
     \<or> fails c DeleteTransactions")
  case True
  from bulkDelete_failed_early [OF True, of ids] obtain e where
    e: "\<And>ts. bulkDeleteTransactions c (d\<lparr>transactions := ts\<rparr>) ids
            = (Inl e, d\<lparr>transactions := ts\<rparr>)"
    by blast
  from e [of "transactions d"] e [of "filter (\<lambda>t. \<not> foreign c d t) (transactions d)"]
  show ?thesis by simp
next
  case False
  then obtain u where u: "calling_user c d = Some u" and
    nf: "\<not> fails c FindUser" "\<not> fails c FindTransactions" "\<not> fails c DeleteTransactions"
    by auto
  define sel where "sel = (\<lambda>t::transaction. tx_id t \<in> set ids \<and> tx_userId t = user_id u)"
  define txs where "txs = filter sel (transactions d)"
  define own where "own = filter (\<lambda>t. \<not> foreign c d t) (transactions d)"
  have f: "foreign c d = (\<lambda>t. tx_userId t \<noteq> user_id u)"
    using u by (simp add: foreign_def fun_eq_iff)
  have own_sel: "filter sel own = txs"
    unfolding own_def txs_def sel_def f by (auto intro: filter_cong)
  have keep: "filter (\<lambda>t. \<not> sel t \<and> foreign c d t) ts = filter (foreign c d) ts" for ts
    unfolding sel_def f by (auto intro: filter_cong)
  have r: "bulkDeleteTransactions c d ids =
     (case apply_changes c (accountBalanceChanges txs) d of
        Inl e \<Rightarrow> (Inl e, d)
      | Inr d' \<Rightarrow> (Inr (), d'\<lparr>transactions := filter (\<lambda>t. \<not> sel t) (transactions d)\<rparr>))"
    using bulkDelete_run [OF u nf, of ids "transactions d" txs]
    by (simp add: txs_def sel_def split: sum.splits)
  have r0: "bulkDeleteTransactions c (d\<lparr>transactions := own\<rparr>) ids =
     (case apply_changes c (accountBalanceChanges txs) d of
        Inl e \<Rightarrow> (Inl e, d\<lparr>transactions := own\<rparr>)
      | Inr d' \<Rightarrow> (Inr (), d'\<lparr>transactions := filter (\<lambda>t. \<not> sel t) own\<rparr>))"
    using bulkDelete_run [OF u nf, of ids own txs] own_sel
    by (simp add: sel_def split: sum.splits)
  show ?thesis
    unfolding own_def [symmetric] r r0
    by (cases "apply_changes c (accountBalanceChanges txs) d") (simp_all add: keep)
qed


text \<open>
  The second user's transaction \<open>t4\<close> is requested together with the caller's \<open>t1\<close>:
  \<open>t4\<close> stays, and only the reversal of \<open>t1\<close> reaches a balance.
\<close>

theorem ownership_filter_witness:
  "foreign no_faults db0 t4 \<and> tx_id t4 \<in> set [''t1'', ''t4'']
   \<and> filter (foreign no_faults db0)
        (transactions (snd (bulkDeleteTransactions no_faults db0 [''t1'', ''t4'']))) = [t4]
   \<and> map balance (accounts (snd (bulkDeleteTransactions no_faults db0 [''t1'', ''t4''])))
        = [130, 50, 10]"
proof -
  have a: "foreign no_faults db0 t4" "tx_id t4 \<in> set [''t1'', ''t4'']"
    by code_simp+
  have b: "filter (foreign no_faults db0) (transactions db0) = [t4]"
    by code_simp
  have c: "map balance (accounts (snd (bulkDeleteTransactions no_faults
             (db0\<lparr>transactions := filter (\<lambda>t. \<not> foreign no_faults db0 t) (transactions db0)\<rparr>)
             [''t1'', ''t4'']))) = [130, 50, 10]"
    by code_simp
  from ownership_filter [of no_faults db0 "[''t1'', ''t4'']"] a b c show ?thesis
    by simp
qed

section \<open>Atomicity of the bulk delete\<close>

text \<open>
  Every write of the bulk delete happens inside the callback of \<open>$transaction\<close>, so a
  failure answer always comes with the store as it was.
\<close>

lemma bulkDelete_failure_unchanged:
  "isl (fst (bulkDeleteTransactions c d ids)) \<Longrightarrow> snd (bulkDeleteTransactions c d ids) = d"
  by (auto simp: bulkDeleteTransactions_def db_transaction_def split: sum.splits option.splits)

text \<open>
  An increment is rejected when the store rejects the call, when the value handed to
  \<open>increment\<close> is no decimal numeral, or when no account has the id; an accepted
  increment leaves the account ids as they are.  The loop stops at the first rejected
  increment, so one rejected entry anywhere in the list makes the callback throw.
\<close>

lemma update_first_ids:
  fixes xs :: "account list"
  assumes "update_first P f xs = Some (a, ys)" and "\<And>x. acc_id (f x) = acc_id x"
  shows "map acc_id ys = map acc_id xs"
  using assms(1)
proof (induction xs arbitrary: ys)
  case Nil
  then show ?case by simp
next
  case (Cons x xs)
  then show ?case
    by (auto simp: assms(2) split: if_splits)
qed

lemma update_first_None:
  "(update_first P f xs = None) = (find P xs = None)"
  by (induction xs) auto

lemma account_increment_ids:
  assumes "account_increment c k v d = Inr d'"
  shows "map acc_id (accounts d') = map acc_id (accounts d)"
proof -
  from assms obtain delta a accs where
    "update_first (\<lambda>a. acc_id a = k) (\<lambda>a. a\<lparr>balance := balance a + delta\<rparr>) (accounts d)
       = Some (a, accs)" "d' = d\<lparr>accounts := accs\<rparr>"
    by (auto simp: account_increment_def split: if_splits option.splits)
  with update_first_ids [of "\<lambda>a. acc_id a = k" "\<lambda>a. a\<lparr>balance := balance a + delta\<rparr>"
      "accounts d" a accs]
  show ?thesis by simp
qed

lemma find_id_None:
  fixes xs :: "account list"
  shows "(find (\<lambda>a. acc_id a = k) xs = None) = (k \<notin> set (map acc_id xs))"
  by (auto simp: find_None_iff)

lemma account_increment_rejects:
  assumes "fails c (UpdateBalance k) \<or> decimal_input v = None
           \<or> find (\<lambda>a. acc_id a = k) (accounts d) = None"
  shows "isl (account_increment c k v d)"
proof (cases "fails c (UpdateBalance k) \<or> decimal_input v = None")
  case True
  then show ?thesis
    by (auto simp: account_increment_def)
next
  case False
  with assms have "find (\<lambda>a. acc_id a = k) (accounts d) = None" by auto
  then have "update_first (\<lambda>a. acc_id a = k) f (accounts d) = None" for f
    by (simp only: update_first_None)
  with False show ?thesis
    by (auto simp: account_increment_def)
qed

lemma apply_changes_rejects:
  assumes "\<exists>p \<in> set chs. fails c (UpdateBalance (fst p)) \<or> decimal_input (snd p) = None
             \<or> find (\<lambda>a. acc_id a = fst p) (accounts d) = None"
  shows "isl (apply_changes c chs d)"
  using assms
proof (induction chs arbitrary: d)
  case Nil
  then show ?case by simp
next
  case (Cons q chs)
  obtain k v where q: "q = (k, v)" by (cases q)
  show ?case
  proof (cases "account_increment c k v d")
    case (Inl e)
    then show ?thesis by (simp add: q)
  next
    case (Inr d1)
    then have "\<not> isl (account_increment c k v d)" by simp
    with account_increment_rejects [of c k v d]
    have ok: "\<not> (fails c (UpdateBalance k) \<or> decimal_input v = None
                 \<or> find (\<lambda>a. acc_id a = k) (accounts d) = None)"
      by blast
    from account_increment_ids [OF Inr]
    have same: "find (\<lambda>a. acc_id a = j) (accounts d1) = None
                \<longleftrightarrow> find (\<lambda>a. acc_id a = j) (accounts d) = None" for j
      by (simp only: find_id_None)
    from Cons.prems ok q
    have "\<exists>p \<in> set chs. fails c (UpdateBalance (fst p)) \<or> decimal_input (snd p) = None
             \<or> find (\<lambda>a. acc_id a = fst p) (accounts d) = None"
      by auto
    then have "\<exists>p \<in> set chs. fails c (UpdateBalance (fst p)) \<or> decimal_input (snd p) = None
             \<or> find (\<lambda>a. acc_id a = fst p) (accounts d1) = None"
      by (simp only: same)
    from Cons.IH [OF this] Inr show ?thesis
      by (simp add: q)
  qed
qed

text \<open>
  The reducer records a change for exactly the accounts of the resolved transactions.
\<close>

lemma changes_keys:
  "fst ` set (foldl (\<lambda>acc t. assign (tx_accountId t)
                  (js_plus (js_or_zero (map_of acc (tx_accountId t))) (change t)) acc) acc txs)
     = fst ` set acc \<union> tx_accountId ` set txs"
proof (induction txs arbitrary: acc)
  case Nil
  show ?case by simp
next
  case (Cons t txs)
  have k: "fst ` set (assign k v acc) = insert k (fst ` set acc)" for k v acc
    by (induction acc) auto
  show ?case
    by (simp add: Cons.IH k)
qed


text \<open>
  C4.  Let the apply step of \<open>bulkDeleteTransactions\<close> fail for a resolvable caller:
  the store rejects the deletion, or the increment of the account of some resolved
  transaction is rejected (by the store, or because the account does not exist), or
  some recorded change is a value the store cannot read as a decimal.  Then the call
  answers with a failure and the store after the call is the store before it: every
  transaction still exists and every balance is what it was.
\<close>

theorem bulkDelete_rejection_atomic:
  assumes u: "calling_user c d = Some u"
    and rejected:
      "fails c DeleteTransactions
       \<or> (\<exists>t \<in> set (resolved (user_id u) ids d).
              fails c (UpdateBalance (tx_accountId t))
              \<or> find (\<lambda>a. acc_id a = tx_accountId t) (accounts d) = None)
       \<or> (\<exists>p \<in> set (accountBalanceChanges (resolved (user_id u) ids d)).
              decimal_input (snd p) = None)"
  shows "\<exists>e. bulkDeleteTransactions c d ids = (Inl e, d)"
proof (cases "fails c FindUser \<or> fails c FindTransactions \<or> fails c DeleteTransactions")
  case True
  then have "calling_user c d = None \<or> fails c FindUser \<or> fails c FindTransactions
     \<or> fails c DeleteTransactions"
    by blast
  from bulkDelete_failed_early [OF this, of ids] obtain e where
    "\<And>ts. bulkDeleteTransactions c (d\<lparr>transactions := ts\<rparr>) ids = (Inl e, d\<lparr>transactions := ts\<rparr>)"
    by blast
  from this [of "transactions d"] show ?thesis by simp
next
  case False
  then have nf: "\<not> fails c FindUser" "\<not> fails c FindTransactions" "\<not> fails c DeleteTransactions"
    by simp_all
  define txs where "txs = resolved (user_id u) ids d"
  define chs where "chs = accountBalanceChanges txs"
  have keys: "fst ` set chs = tx_accountId ` set txs"
    using changes_keys [of "[]" txs] by (simp add: chs_def accountBalanceChanges_def)
  from rejected nf have
    "(\<exists>t \<in> set txs. fails c (UpdateBalance (tx_accountId t))
          \<or> find (\<lambda>a. acc_id a = tx_accountId t) (accounts d) = None)
     \<or> (\<exists>p \<in> set chs. decimal_input (snd p) = None)"
    by (simp add: txs_def chs_def)
  then have "\<exists>p \<in> set chs. fails c (UpdateBalance (fst p)) \<or> decimal_input (snd p) = None
             \<or> find (\<lambda>a. acc_id a = fst p) (accounts d) = None"
  proof
    assume "\<exists>t \<in> set txs. fails c (UpdateBalance (tx_accountId t))
          \<or> find (\<lambda>a. acc_id a = tx_accountId t) (accounts d) = None"
    then obtain t where t: "t \<in> set txs"
      and bad: "fails c (UpdateBalance (tx_accountId t))
          \<or> find (\<lambda>a. acc_id a = tx_accountId t) (accounts d) = None"
      by blast
    from t keys have "tx_accountId t \<in> fst ` set chs" by blast
    then obtain p where p: "p \<in> set chs" and "fst p = tx_accountId t" by auto
    with bad have "fails c (UpdateBalance (fst p))
          \<or> find (\<lambda>a. acc_id a = fst p) (accounts d) = None"
      by simp
    with p show ?thesis by blast
  next
    assume "\<exists>p \<in> set chs. decimal_input (snd p) = None"
    then show ?thesis by blast
  qed
  from apply_changes_rejects [OF this] obtain e where e: "apply_changes c chs d = Inl e"
    by (cases "apply_changes c chs d") simp_all
  have sel: "filter (\<lambda>t. tx_id t \<in> set ids \<and> tx_userId t = user_id u) (transactions d) = txs"
    by (simp add: txs_def resolved_def)
  have "d\<lparr>transactions := transactions d\<rparr> = d" by simp
  with bulkDelete_run [OF u nf sel] e show ?thesis
    by (simp add: chs_def)
qed

text \<open>
  The store rejects the increment of Y, the account of the resolved transaction \<open>t3\<close>,
  after the deletion and the increment of X have run inside the transaction.
\<close>

theorem bulkDelete_rejection_atomic_witness:
  "t3 \<in> set (resolved (user_id u1) [''t1'', ''t3''] db0)
   \<and> fails (fail_at (UpdateBalance ''acc_y'')) (UpdateBalance (tx_accountId t3))
   \<and> bulkDeleteTransactions (fail_at (UpdateBalance ''acc_y'')) db0 [''t1'', ''t3'']
     = (Inl (StorageFailure (UpdateBalance ''acc_y'')), db0)"
proof -
  have u: "calling_user (fail_at (UpdateBalance ''acc_y'')) db0 = Some u1"
    by code_simp
  have t: "t3 \<in> set (resolved (user_id u1) [''t1'', ''t3''] db0)"
    by code_simp
  have f: "fails (fail_at (UpdateBalance ''acc_y'')) (UpdateBalance (tx_accountId t3))"
    by code_simp
  from t f have "fails (fail_at (UpdateBalance ''acc_y'')) DeleteTransactions
       \<or> (\<exists>t \<in> set (resolved (user_id u1) [''t1'', ''t3''] db0).
              fails (fail_at (UpdateBalance ''acc_y'')) (UpdateBalance (tx_accountId t))
              \<or> find (\<lambda>a. acc_id a = tx_accountId t) (accounts db0) = None)
       \<or> (\<exists>p \<in> set (accountBalanceChanges (resolved (user_id u1) [''t1'', ''t3''] db0)).
              decimal_input (snd p) = None)"
    by blast
  from bulkDelete_rejection_atomic [OF u this] obtain e where
    r: "bulkDeleteTransactions (fail_at (UpdateBalance ''acc_y'')) db0 [''t1'', ''t3''] = (Inl e, db0)"
    by blast
  have "fst (bulkDeleteTransactions (fail_at (UpdateBalance ''acc_y'')) db0 [''t1'', ''t3''])
            = Inl (StorageFailure (UpdateBalance ''acc_y''))"
    by code_simp
  with r t f show ?thesis by simp
qed

text \<open>
  In that run the transaction had already deleted \<open>t1\<close> and \<open>t3\<close> and raised the
  balance of X when the second increment was rejected; none of it is in the store the
  call leaves behind.
\<close>

lemma bulkDelete_partial_state:
  "transaction_deleteMany (fail_at (UpdateBalance ''acc_y'')) [''t1'', ''t3''] ''user_1'' db0
     = Inr (db0\<lparr>transactions := [t2, t4]\<rparr>)
   \<and> accountBalanceChanges [t1, t3] = [(''acc_x'', JStr ''030''), (''acc_y'', JNum (- 5))]
   \<and> account_increment (fail_at (UpdateBalance ''acc_y'')) ''acc_x'' (JStr ''030'')
         (db0\<lparr>transactions := [t2, t4]\<rparr>)
     = Inr (db0\<lparr>accounts := [accX\<lparr>balance := 130\<rparr>, accY, accZ], transactions := [t2, t4]\<rparr>)
   \<and> account_increment (fail_at (UpdateBalance ''acc_y'')) ''acc_y'' (JNum (- 5))
         (db0\<lparr>accounts := [accX\<lparr>balance := 130\<rparr>, accY, accZ], transactions := [t2, t4]\<rparr>)
     = Inl (StorageFailure (UpdateBalance ''acc_y''))"
  by code_simp

section \<open>A request none of whose ids resolves\<close>

text \<open>
  C8, as stated, fails.  The first user asks to delete an id that does not exist and the
  id of the second user's transaction: nothing resolves, and the answer is
  \<open>{success: true}\<close> with the store untouched, not a failure.
\<close>

theorem unresolvable_request_counterexample:
  "[''nope'', ''t4''] \<noteq> [] \<and> calling_user no_faults db0 = Some u1
   \<and> resolved (user_id u1) [''nope'', ''t4''] db0 = []
   \<and> bulkDeleteTransactions no_faults db0 [''nope'', ''t4''] = (Inr (), db0)"
  by code_simp

text \<open>
  C8, amended.  For a resolvable caller and a store that rejects none of the three calls
  made, a request none of whose ids resolves to a transaction of the caller (the empty
  request included) is answered with success and leaves the store as it was.
\<close>

theorem unresolvable_request_succeeds:
  assumes u: "calling_user c d = Some u"
    and nf: "\<not> fails c FindUser" "\<not> fails c FindTransactions" "\<not> fails c DeleteTransactions"
    and none: "resolved (user_id u) ids d = []"
  shows "bulkDeleteTransactions c d ids = (Inr (), d)"
proof -
  from none have sel: "filter (\<lambda>t. tx_id t \<in> set ids \<and> tx_userId t = user_id u) (transactions d) = []"
    by (simp add: resolved_def)
  then have "\<forall>t \<in> set (transactions d). \<not> (tx_id t \<in> set ids \<and> tx_userId t = user_id u)"
    by (simp only: filter_empty_conv)
  then have keep: "filter (\<lambda>t. \<not> (tx_id t \<in> set ids \<and> tx_userId t = user_id u)) (transactions d)
                   = transactions d"
    by (simp only: filter_True)
  from bulkDelete_run [OF u nf sel] show ?thesis
    by (simp add: keep accountBalanceChanges_def del: de_Morgan_conj)
qed

theorem unresolvable_request_succeeds_witness:
  "resolved (user_id u1) [''nope'', ''t4''] db0 = []
   \<and> bulkDeleteTransactions no_faults db0 [''nope'', ''t4''] = (Inr (), db0)"
proof -
  have u: "calling_user no_faults db0 = Some u1" by code_simp
  have nf: "\<not> fails no_faults FindUser" "\<not> fails no_faults FindTransactions"
    "\<not> fails no_faults DeleteTransactions"
    by (simp_all add: no_faults_def)
  have none: "resolved (user_id u1) [''nope'', ''t4''] db0 = []" by code_simp
  from unresolvable_request_succeeds [OF u nf none] none show ?thesis
    by simp
qed

section \<open>Creating an account\<close>

lemma calling_userD:
  assumes "calling_user c d = Some u"
  obtains userId where "auth c = Inr userId"
    and "find (\<lambda>u. clerkUserId u = userId) (users d) = Some u"
  using assms by (auto simp: calling_user_def split: sum.splits)

lemma createAccount_run:
  assumes u: "calling_user c d = Some u"
    and ok: "arcjet c = Allowed" "\<not> fails c FindUser" "\<not> fails c FindAccounts"
    and b: "parseFloat (d_balance data) = Some b"
    and flag: "flag = (accounts_of (user_id u) d = [] \<or> d_isDefault data)"
  shows "createAccount parseFloat c d data =
     (case (if flag then account_updateMany c (user_id u) d else Inr d) of
        Inl e \<Rightarrow> (Inl e, d)
      | Inr d1 \<Rightarrow>
          (case account_create c data b (user_id u) flag d1 of
             Inl e \<Rightarrow> (Inl e, d1)
           | Inr (account, d2) \<Rightarrow> (Inr (serializeDecimal account), d2)))"
proof -
  from u obtain userId where au: "auth c = Inr userId"
    and fu: "find (\<lambda>u. clerkUserId u = userId) (users d) = Some u"
    by (rule calling_userD)
  show ?thesis
  proof (cases flag)
    case True
    with flag have "accounts_of (user_id u) d = [] \<or> d_isDefault data"
      by simp
    then have "(if length (filter (\<lambda>a. acc_userId a = user_id u) (accounts d)) = 0 then True
               else d_isDefault data) = True"
      by (auto simp: accounts_of_def)
    with True show ?thesis
      by (simp add: createAccount_def au fu ok b user_findUnique_def account_findMany_def
            Let_def del: length_0_conv split: sum.splits)
  next
    case False
    with flag have "\<not> (accounts_of (user_id u) d = [] \<or> d_isDefault data)"
      by simp
    then have "(if length (filter (\<lambda>a. acc_userId a = user_id u) (accounts d)) = 0 then True
               else d_isDefault data) = False"
      by (auto simp: accounts_of_def)
    with False show ?thesis
      by (simp add: createAccount_def au fu ok b user_findUnique_def account_findMany_def
            Let_def del: length_0_conv split: sum.splits)
  qed
qed


lemma createAccount_success:
  assumes ok: "createAccount parseFloat c d data = (Inr a, d')"
    and u: "calling_user c d = Some u"
  obtains balanceFloat d1 row where
    "(if accounts_of (user_id u) d = [] \<or> d_isDefault data
      then account_updateMany c (user_id u) d else Inr d) = Inr d1"
    "account_create c data balanceFloat (user_id u)
       (accounts_of (user_id u) d = [] \<or> d_isDefault data) d1 = Inr (row, d')"
    "a = serializeDecimal row"
proof -
  from u obtain userId where au: "auth c = Inr userId"
    and fu: "find (\<lambda>u. clerkUserId u = userId) (users d) = Some u"
    by (rule calling_userD)
  have A: "arcjet c = Allowed"
    using ok au by (cases "arcjet c") (simp_all add: createAccount_def)
  have F: "\<not> fails c FindUser"
  proof
    assume "fails c FindUser"
    with ok au A show False
      by (simp add: createAccount_def user_findUnique_def)
  qed
  note lookup = au A F fu user_findUnique_def
  obtain b where B: "parseFloat (d_balance data) = Some b"
    using ok by (cases "parseFloat (d_balance data)") (simp_all add: createAccount_def lookup)
  have FA: "\<not> fails c FindAccounts"
  proof
    assume "fails c FindAccounts"
    with ok B show False
      by (simp add: createAccount_def lookup account_findMany_def)
  qed
  define flag where "flag = (accounts_of (user_id u) d = [] \<or> d_isDefault data)"
  note run = createAccount_run [of c d u parseFloat data b flag, OF u A F FA B flag_def]
  from ok [unfolded run] obtain d1 where
    d1: "(if flag then account_updateMany c (user_id u) d else Inr d) = Inr d1"
    by (cases "if flag then account_updateMany c (user_id u) d else Inr d") simp_all
  from ok [unfolded run d1] obtain row where
    "account_create c data b (user_id u) flag d1 = Inr (row, d')" "a = serializeDecimal row"
    by (cases "account_create c data b (user_id u) flag d1") auto
  with d1 that show thesis
    unfolding flag_def by blast
qed


lemma account_create_row:
  assumes "account_create c data b uid flag d1 = Inr (row, d')"
  shows "isDefault row = flag" "acc_userId row = uid" "acc_id row = gen_id c"
    "accounts d' = accounts d1 @ [row]"
  using assms
  by (auto simp: account_create_def Let_def split: if_splits option.splits)

lemma serializeDecimal_id [simp]: "serializeDecimal row = row"
  by (simp add: serializeDecimal_def toNumber_def)




section \<open>Switching the default to the account that already is the default\<close>

lemma clear_defaults_none:
  "filter isDefault (filter (\<lambda>x. acc_userId x = uid) accs) = [] \<Longrightarrow> clear_defaults uid accs = accs"
  by (induction accs) (auto simp: clear_defaults_def split: if_splits)

lemma update_first_after_clear:
  assumes "distinct (map acc_id accs)"
    and "filter isDefault (filter (\<lambda>x. acc_userId x = uid) accs) = [a]"
  shows "update_first (\<lambda>x. acc_id x = acc_id a \<and> acc_userId x = uid)
           (\<lambda>x. x\<lparr>isDefault := True\<rparr>) (clear_defaults uid accs) = Some (a, accs)"
  using assms
proof (induction accs)
  case Nil
  then show ?case by simp
next
  case (Cons x xs)
  show ?case
  proof (cases "acc_userId x = uid \<and> isDefault x")
    case True
    with Cons.prems have xa: "x = a"
      and rest: "filter isDefault (filter (\<lambda>x. acc_userId x = uid) xs) = []"
      by simp_all
    from True xa have "a\<lparr>isDefault := False, isDefault := True\<rparr> = a"
      by simp
    with True xa clear_defaults_none [OF rest] show ?thesis
      by (simp add: clear_defaults_def)
  next
    case False
    with Cons.prems have rest: "filter isDefault (filter (\<lambda>x. acc_userId x = uid) xs) = [a]"
      by (auto split: if_splits)
    then have "a \<in> set (filter isDefault (filter (\<lambda>x. acc_userId x = uid) xs))"
      by simp
    then have "a \<in> set xs" by simp
    with Cons.prems have ne: "acc_id x \<noteq> acc_id a" by auto
    from Cons.prems have "distinct (map acc_id xs)" by simp
    from Cons.IH [OF this rest] False ne show ?thesis
      by (auto simp: clear_defaults_def)
  qed
qed

text \<open>
  C9, as stated, fails when the store rejects one of the two writes.  The first user
  names X, her default, again.  If the store rejects the setting write, the call fails
  and X is left without the flag, the clearing write having been committed; if it
  rejects the clearing write, the call fails with the store untouched.  Neither call
  returns success.
\<close>

theorem idempotent_default_counterexample:
  "defaults_of (user_id u1) db0 = [accX]
   \<and> updateDefaultAccount (fail_at SetDefault) db0 (acc_id accX)
       = (Inl (StorageFailure SetDefault), db0_cleared)
   \<and> db0_cleared \<noteq> db0
   \<and> updateDefaultAccount (fail_at ClearDefaults) db0 (acc_id accX)
       = (Inl (StorageFailure ClearDefaults), db0)"
  by code_simp

text \<open>
  C9, amended.  In a store whose account ids are distinct, let \<open>a\<close> be the caller's one
  default account.  If the store rejects none of the three calls made (the user lookup,
  the clearing write, the setting write), \<open>updateDefaultAccount\<close> with the id of \<open>a\<close>
  answers success with \<open>a\<close> and leaves the whole store as it was: the flag is cleared
  and set again on the same row, and no other row is touched.
\<close>

theorem idempotent_default:
  assumes u: "calling_user c d = Some u"
    and nf: "\<not> fails c FindUser" "\<not> fails c ClearDefaults" "\<not> fails c SetDefault"
    and ids: "distinct (map acc_id (accounts d))"
    and a: "defaults_of (user_id u) d = [a]"
  shows "updateDefaultAccount c d (acc_id a) = (Inr a, d)"
proof -
  from u obtain userId where au: "auth c = Inr userId"
    and fu: "find (\<lambda>u. clerkUserId u = userId) (users d) = Some u"
    by (auto simp: calling_user_def split: sum.splits)
  from a have "filter isDefault (filter (\<lambda>x. acc_userId x = user_id u) (accounts d)) = [a]"
    by (simp add: defaults_of_def accounts_of_def)
  from update_first_after_clear [OF ids this] show ?thesis
    by (simp add: updateDefaultAccount_def au fu nf user_findUnique_def account_updateMany_def
          account_update_def serializeDecimal_def toNumber_def)
qed

text \<open>
  The first user names X, her default, again.
\<close>

theorem idempotent_default_witness:
  "defaults_of (user_id u1) db0 = [accX]
   \<and> updateDefaultAccount no_faults db0 (acc_id accX) = (Inr accX, db0)"
proof -
  have u: "calling_user no_faults db0 = Some u1" by code_simp
  have nf: "\<not> fails no_faults FindUser" "\<not> fails no_faults ClearDefaults"
    "\<not> fails no_faults SetDefault"
    by (simp_all add: no_faults_def)
  have ids: "distinct (map acc_id (accounts db0))" by code_simp
  have a: "defaults_of (user_id u1) db0 = [accX]" by code_simp
  from idempotent_default [OF u nf ids a] a show ?thesis
    by simp
qed

section \<open>Reading the accounts\<close>

text \<open>
  C10, as stated, fails in its last part.  The caller is signed in and her user record
  exists, but the store rejects the user lookup, which is awaited outside \<open>try\<close>:
  \<open>getUserAccounts\<close> raises.
\<close>

theorem getUserAccounts_raise_counterexample:
  "auth (fail_at FindUser) = Inr ''clerk_1''
   \<and> calling_user (fail_at FindUser) db0 = Some u1
   \<and> getUserAccounts (fail_at FindUser) db0 = (Inl (StorageFailure FindUser), [])"
  by code_simp

text \<open>
  C10, amended.  \<open>getUserAccounts\<close> raises exactly when the caller is not signed in or
  has no user record, or when the store rejects the user lookup.  In every other case a
  rejected account query is caught: the error is written to the console and the caller
  receives \<open>undefined\<close>, neither an exception nor a failure payload.
\<close>

theorem getUserAccounts_outcomes:
  "(isl (fst (getUserAccounts c d)) \<longleftrightarrow> calling_user c d = None \<or> fails c FindUser)
   \<and> (\<not> isl (fst (getUserAccounts c d)) \<and> fails c FindAccounts
        \<longrightarrow> getUserAccounts c d = (Inr None, [StorageFailure FindAccounts]))"
proof (cases "auth c")
  case (Inl e)
  then show ?thesis
    by (simp add: getUserAccounts_def calling_user_def)
next
  case au: (Inr userId)
  show ?thesis
  proof (cases "fails c FindUser")
    case True
    with au show ?thesis
      by (simp add: getUserAccounts_def user_findUnique_def)
  next
    case nf: False
    show ?thesis
    proof (cases "find (\<lambda>u. clerkUserId u = userId) (users d)")
      case None
      with au nf show ?thesis
        by (simp add: getUserAccounts_def user_findUnique_def calling_user_def)
    next
      case (Some u)
      with au nf show ?thesis
        by (simp add: getUserAccounts_def user_findUnique_def calling_user_def
              account_findMany_def)
    qed
  qed
qed

text \<open>
  The account query of the first user is rejected.
\<close>

theorem getUserAccounts_outcomes_witness:
  "fails (fail_at FindAccounts) FindAccounts
   \<and> calling_user (fail_at FindAccounts) db0 = Some u1
   \<and> getUserAccounts (fail_at FindAccounts) db0 = (Inr None, [StorageFailure FindAccounts])"
proof -
  have f: "fails (fail_at FindAccounts) FindAccounts" "\<not> fails (fail_at FindAccounts) FindUser"
    by (simp_all add: fail_at_def)
  have u: "calling_user (fail_at FindAccounts) db0 = Some u1" by code_simp
  from getUserAccounts_outcomes [of "fail_at FindAccounts" db0] f u show ?thesis
    by simp
qed

text \<open>
  Without a rejection the first user receives her accounts, newest first, each with the
  number of its transactions.
\<close>

lemma getUserAccounts_example:
  "fst (getUserAccounts no_faults db0) = Inr (Some [(accY, 1), (accX, 2)])"
  by code_simp

section \<open>The default flag when a call fails\<close>

text \<open>
  C1.  \<open>db0\<close> satisfies the single-default invariant for each of its users.  The first
  user asks to make \<open>acc_z\<close>, an account of the second user, her default.  The clearing
  \<open>updateMany\<close> has already run when \<open>update\<close> finds no row with that id among her
  accounts and rejects; the action answers \<open>{success: false}\<close>, and the first user
  is left with two accounts and no default.
\<close>

theorem failed_switch_leaves_no_default:
  "single_default ''user_1'' db0 \<and> single_default ''user_2'' db0 \<and> single_default ''user_3'' db0
   \<and> updateDefaultAccount no_faults db0 ''acc_z'' = (Inl RecordNotFound, db0_cleared)
   \<and> accounts_of ''user_1'' db0_cleared = [accX\<lparr>isDefault := False\<rparr>, accY]
   \<and> defaults_of ''user_1'' db0_cleared = []
   \<and> \<not> single_default ''user_1'' db0_cleared"
  by code_simp

text \<open>
  C2.  The clear phase and the set or insert phase are two store calls outside any
  \<open>$transaction\<close>.  When the second is rejected (by the store, or because the named
  account does not exist), in \<open>updateDefaultAccount\<close> as well as in \<open>createAccount\<close>,
  the call fails and the flag of X stays cleared.
\<close>

theorem default_switch_not_atomic:
  "updateDefaultAccount (fail_at SetDefault) db0 ''acc_y''
     = (Inl (StorageFailure SetDefault), db0_cleared)
   \<and> updateDefaultAccount no_faults db0 ''acc_q'' = (Inl RecordNotFound, db0_cleared)
   \<and> createAccount numeral_parseFloat (fail_at CreateRow) db0 form_default
     = (Inl (StorageFailure CreateRow), db0_cleared)
   \<and> map isDefault (accounts db0) = [True, False, True]
   \<and> map isDefault (accounts db0_cleared) = [False, False, True]"
  by code_simp

section \<open>The balance after a bulk delete\<close>

text \<open>
  C3.  The first user deletes her two expenses on X, of 30 and of 20.  Both resolve and
  both are deleted.  The reducer starts from the Number \<open>0\<close> and adds the Decimal
  objects with \<open>+\<close>, which concatenates their strings: the change handed to
  \<open>increment\<close> is the string \<open>03020\<close>, and the balance of X goes from 100 to 3120,
  where the sum of the reversal deltas gives 150.
\<close>

theorem two_expenses_on_one_account:
  "resolved ''user_1'' [''t1'', ''t2''] db0 = [t1, t2]
   \<and> map reversal_delta [t1, t2] = [30, 20]
   \<and> accountBalanceChanges [t1, t2] = [(''acc_x'', JStr ''03020'')]
   \<and> bulkDeleteTransactions no_faults db0 [''t1'', ''t2''] = (Inr (), db0_concatenated)
   \<and> map balance (accounts db0) = [100, 50, 10]
   \<and> map balance (accounts db0_concatenated) = [3120, 50, 10]"
  by code_simp

text \<open>
  Whatever the operands, \<open>+\<close> yields a Number or a string, so no value the reducer
  records for an account is a Decimal.
\<close>

lemma js_plus_no_decimal: "js_plus a b \<noteq> JDec d"
  by (simp add: js_plus_def split: prod.splits jsval.splits)

lemma assign_values:
  "p \<in> set (assign k v acc) \<Longrightarrow> snd p = v \<or> p \<in> set acc"
  by (induction acc) (auto split: if_splits)

lemma changes_no_decimal:
  assumes "p \<in> set (accountBalanceChanges txs)"
  shows "snd p \<noteq> JDec d"
proof -
  have "\<forall>p \<in> set (foldl (\<lambda>acc t. assign (tx_accountId t)
                  (js_plus (js_or_zero (map_of acc (tx_accountId t))) (change t)) acc) acc txs).
          snd p \<noteq> JDec d"
    if "\<forall>p \<in> set acc. snd p \<noteq> JDec d" for acc
    using that
  proof (induction txs arbitrary: acc)
    case Nil
    then show ?case by simp
  next
    case (Cons t txs)
    let ?v = "js_plus (js_or_zero (map_of acc (tx_accountId t))) (change t)"
    have "\<forall>p \<in> set (assign (tx_accountId t) ?v acc). snd p \<noteq> JDec d"
    proof
      fix p
      assume "p \<in> set (assign (tx_accountId t) ?v acc)"
      then have "snd p = ?v \<or> p \<in> set acc" by (rule assign_values)
      with Cons.prems show "snd p \<noteq> JDec d"
        by (auto simp: js_plus_no_decimal)
    qed
    from Cons.IH [OF this] show ?case by simp
  qed
  from this [of "[]"] assms show ?thesis
    by (simp add: accountBalanceChanges_def)
qed

text \<open>
  C5.  The per-account summation is not a decimal addition.  For the two expenses of 30
  and 20 on X the value the reducer hands to \<open>increment\<close> is the string \<open>03020\<close>,
  which the store reads as 3020, where the reversal deltas add up to 50; for an income
  of 5 followed by an expense of 30 it is the string \<open>-530\<close>, read as minus 530,
  where they add up to 25.
\<close>

theorem reducer_concatenates_amounts:
  "resolved ''user_1'' [''t1'', ''t2''] db0 = [t1, t2]
   \<and> accountBalanceChanges [t1, t2] = [(''acc_x'', JStr ''03020'')]
   \<and> decimal_input (JStr ''03020'') = Some 3020
   \<and> sum_list (map reversal_delta [t1, t2]) = 50
   \<and> accountBalanceChanges [t5, t1] = [(''acc_x'', JStr ''-530'')]
   \<and> decimal_input (JStr ''-530'') = Some (- 530)
   \<and> sum_list (map reversal_delta [t5, t1]) = 25"
  by code_simp

text \<open>
  With one transaction per account the string is \<open>0\<close> followed by the amount, or the
  change is a negative Number, and the balances move by the reversal deltas (the
  scenarios of the specification are of this kind).
\<close>

lemma one_transaction_per_account:
  "bulkDeleteTransactions no_faults db0 [''t1'', ''t3'']
     = (Inr (), db0\<lparr>accounts := [accX\<lparr>balance := 130\<rparr>, accY\<lparr>balance := 45\<rparr>, accZ],
                     transactions := [t2, t4]\<rparr>)"
  by code_simp

text \<open>
  An income and an expense on one account: income first, the string is a numeral and
  the balance moves by it; expense first, the string is no numeral, the store rejects
  the increment and the whole delete is rolled back.
\<close>

lemma income_and_expense_on_one_account:
  "accountBalanceChanges [t5, t1] = [(''acc_x'', JStr ''-530'')]
   \<and> accountBalanceChanges [t1, t5] = [(''acc_x'', JStr ''030-5'')]
   \<and> bulkDeleteTransactions no_faults (db0\<lparr>transactions := [t5, t1]\<rparr>) [''t1'', ''t5'']
       = (Inr (), db0\<lparr>accounts := [accX\<lparr>balance := -430\<rparr>, accY, accZ], transactions := []\<rparr>)
   \<and> bulkDeleteTransactions no_faults (db0\<lparr>transactions := [t1, t5]\<rparr>) [''t1'', ''t5'']
       = (Inl ValidationError, db0\<lparr>transactions := [t1, t5]\<rparr>)"
  by code_simp

section \<open>What the default flag does keep\<close>

text \<open>
  The two writes of a default switch, seen on the account table: after the clearing
  write the caller has no default, the accounts of everybody else are as before, and no
  row has changed its owner; the setting write then makes the named row the caller's
  only default.
\<close>

lemma clear_defaults_own:
  "filter isDefault (filter (\<lambda>x. acc_userId x = uid) (clear_defaults uid accs)) = []"
  by (induction accs) (auto simp: clear_defaults_def)

lemma clear_defaults_own_conj:
  "filter (\<lambda>x. acc_userId x = uid \<and> isDefault x) (clear_defaults uid accs) = []"
  by (induction accs) (auto simp: clear_defaults_def)

lemma clear_defaults_other:
  "uid' \<noteq> uid \<Longrightarrow>
   filter (\<lambda>x. acc_userId x = uid') (clear_defaults uid accs) = filter (\<lambda>x. acc_userId x = uid') accs"
  by (induction accs) (auto simp: clear_defaults_def)

lemma clear_defaults_owners:
  "map acc_userId (clear_defaults uid accs) = map acc_userId accs"
  by (induction accs) (auto simp: clear_defaults_def)

lemma owners_empty:
  fixes accs accs' :: "account list"
  assumes "map acc_userId accs' = map acc_userId accs"
  shows "(filter (\<lambda>x. acc_userId x = uid) accs' = []) = (filter (\<lambda>x. acc_userId x = uid) accs = [])"
proof -
  have "(filter (\<lambda>x. acc_userId x = uid) ys = []) = (uid \<notin> set (map acc_userId ys))"
    for ys :: "account list"
    by (auto simp: filter_empty_conv)
  from this [of accs'] this [of accs] show ?thesis
    by (simp only: assms)
qed

lemma update_first_set:
  assumes "update_first (\<lambda>x. acc_id x = aid \<and> acc_userId x = uid)
             (\<lambda>x. x\<lparr>isDefault := True\<rparr>) accs = Some (a, accs')"
  shows "acc_id a = aid \<and> acc_userId a = uid \<and> isDefault a \<and> a \<in> set accs'
       \<and> map acc_userId accs' = map acc_userId accs
       \<and> (filter isDefault (filter (\<lambda>x. acc_userId x = uid) accs) = [] \<longrightarrow>
            filter isDefault (filter (\<lambda>x. acc_userId x = uid) accs') = [a])
       \<and> (\<forall>uid'. uid' \<noteq> uid \<longrightarrow>
            filter (\<lambda>x. acc_userId x = uid') accs' = filter (\<lambda>x. acc_userId x = uid') accs)"
  using assms
proof (induction accs arbitrary: accs')
  case Nil
  then show ?case by simp
next
  case (Cons x xs)
  show ?case
  proof (cases "acc_id x = aid \<and> acc_userId x = uid")
    case True
    with Cons.prems have "a = x\<lparr>isDefault := True\<rparr>" "accs' = a # xs"
      by auto
    with True show ?thesis
      by (auto split: if_splits)
  next
    case False
    with Cons.prems obtain ys where ys: "update_first (\<lambda>x. acc_id x = aid \<and> acc_userId x = uid)
             (\<lambda>x. x\<lparr>isDefault := True\<rparr>) xs = Some (a, ys)" and accs': "accs' = x # ys"
      by (auto split: if_splits)
    from Cons.IH [OF ys] accs' show ?thesis
      by (auto split: if_splits)
  qed
qed


lemma defaults_of_accounts:
  "defaults_of uid (d\<lparr>accounts := accs\<rparr>) = filter isDefault (filter (\<lambda>x. acc_userId x = uid) accs)"
  "accounts_of uid (d\<lparr>accounts := accs\<rparr>) = filter (\<lambda>x. acc_userId x = uid) accs"
  by (simp_all add: defaults_of_def accounts_of_def)

text \<open>
  The three ways \<open>updateDefaultAccount\<close> can end for a resolvable caller: a failure
  before anything was written, a failure after the clearing write, or success.
\<close>

lemma updateDefaultAccount_outcome:
  assumes u: "calling_user c d = Some u"
  obtains (unchanged) e where "updateDefaultAccount c d aid = (Inl e, d)"
  | (cleared) e where "updateDefaultAccount c d aid
        = (Inl e, d\<lparr>accounts := clear_defaults (user_id u) (accounts d)\<rparr>)"
  | (switched) a accs where "updateDefaultAccount c d aid = (Inr a, d\<lparr>accounts := accs\<rparr>)"
      "update_first (\<lambda>x. acc_id x = aid \<and> acc_userId x = user_id u)
         (\<lambda>x. x\<lparr>isDefault := True\<rparr>) (clear_defaults (user_id u) (accounts d)) = Some (a, accs)"
proof -
  from u obtain userId where au: "auth c = Inr userId"
    and fu: "find (\<lambda>u. clerkUserId u = userId) (users d) = Some u"
    by (rule calling_userD)
  let ?d1 = "d\<lparr>accounts := clear_defaults (user_id u) (accounts d)\<rparr>"
  show thesis
  proof (cases "fails c FindUser \<or> fails c ClearDefaults")
    case True
    then have "\<exists>e. updateDefaultAccount c d aid = (Inl e, d)"
      by (auto simp: updateDefaultAccount_def au fu user_findUnique_def account_updateMany_def)
    with unchanged show thesis by blast
  next
    case False
    then have run: "updateDefaultAccount c d aid =
       (case account_update c aid (user_id u) ?d1 of
          Inl e \<Rightarrow> (Inl e, ?d1)
        | Inr (account, d2) \<Rightarrow> (Inr (serializeDecimal account), d2))"
      by (simp add: updateDefaultAccount_def au fu user_findUnique_def account_updateMany_def)
    show thesis
    proof (cases "account_update c aid (user_id u) ?d1")
      case (Inl e)
      with run cleared show thesis by simp
    next
      case (Inr p)
      obtain a d2 where p: "p = (a, d2)" by (cases p)
      from Inr p obtain accs where
        "update_first (\<lambda>x. acc_id x = aid \<and> acc_userId x = user_id u)
           (\<lambda>x. x\<lparr>isDefault := True\<rparr>) (clear_defaults (user_id u) (accounts d)) = Some (a, accs)"
        "d2 = d\<lparr>accounts := accs\<rparr>"
        by (auto simp: account_update_def split: if_splits option.splits)
      with run Inr p switched show thesis
        by (simp add: serializeDecimal_def toNumber_def)
    qed
  qed
qed

text \<open>
  A successful switch leaves the caller with exactly the named account as default, and
  keeps the single-default invariant of every user.
\<close>

lemma switch_success_single_default:
  assumes ok: "updateDefaultAccount c d aid = (Inr a, d')"
    and u: "calling_user c d = Some u"
  shows "defaults_of (user_id u) d' = [a]" "acc_id a = aid"
    "uid \<noteq> user_id u \<Longrightarrow> accounts_of uid d' = accounts_of uid d"
    "single_default uid d \<Longrightarrow> single_default uid d'"
proof -
  from u ok obtain accs where d': "d' = d\<lparr>accounts := accs\<rparr>"
    and upd: "update_first (\<lambda>x. acc_id x = aid \<and> acc_userId x = user_id u)
         (\<lambda>x. x\<lparr>isDefault := True\<rparr>) (clear_defaults (user_id u) (accounts d)) = Some (a, accs)"
    by (cases rule: updateDefaultAccount_outcome [of c d u aid]) auto
  note s = update_first_set [OF upd]
  from s show one: "defaults_of (user_id u) d' = [a]"
    by (simp add: d' defaults_of_accounts clear_defaults_own_conj)
  from s show "acc_id a = aid" by simp
  from s show other: "accounts_of uid d' = accounts_of uid d" if "uid \<noteq> user_id u"
    using that by (simp add: d' defaults_of_accounts clear_defaults_other accounts_of_def)
  show "single_default uid d'" if inv: "single_default uid d"
  proof (cases "uid = user_id u")
    case True
    from s have "a \<in> set (accounts_of (user_id u) d')"
      by (simp add: d' defaults_of_accounts)
    then have "accounts_of (user_id u) d' \<noteq> []" by auto
    with one True show ?thesis
      by (simp add: single_default_def)
  next
    case False
    from other [OF False] inv show ?thesis
      by (simp add: single_default_def defaults_of_def)
  qed
qed


lemma account_updateMany_accounts:
  "account_updateMany c uid d = Inr d1 \<Longrightarrow> d1 = d\<lparr>accounts := clear_defaults uid (accounts d)\<rparr>"
  by (auto simp: account_updateMany_def split: if_splits)

text \<open>
  A successful \<open>createAccount\<close> keeps the single-default invariant of every user as
  well: the new account is the caller's only default if it is a default at all, and
  otherwise the caller's default is the one it was.
\<close>

lemma create_success_single_default:
  assumes ok: "createAccount parseFloat c d data = (Inr a, d')"
    and u: "calling_user c d = Some u"
  shows "defaults_of (user_id u) d' = (if isDefault a then [a] else defaults_of (user_id u) d)"
    "uid \<noteq> user_id u \<Longrightarrow> accounts_of uid d' = accounts_of uid d"
    "single_default uid d \<Longrightarrow> single_default uid d'"
proof -
  define flag where "flag = (accounts_of (user_id u) d = [] \<or> d_isDefault data)"
  from ok u obtain balanceFloat d1 row where
    d1: "(if flag then account_updateMany c (user_id u) d else Inr d) = Inr d1"
    and created: "account_create c data balanceFloat (user_id u) flag d1 = Inr (row, d')"
    and a: "a = serializeDecimal row"
    unfolding flag_def by (rule createAccount_success)
  note row = account_create_row [OF created]
  from a have ar: "a = row" by simp
  have accs: "accounts d1 = (if flag then clear_defaults (user_id u) (accounts d) else accounts d)"
    using d1 by (auto dest: account_updateMany_accounts split: if_splits)
  show one: "defaults_of (user_id u) d' = (if isDefault a then [a] else defaults_of (user_id u) d)"
    using row by (simp add: ar accs defaults_of_def accounts_of_def clear_defaults_own_conj)
  show other: "accounts_of uid d' = accounts_of uid d" if "uid \<noteq> user_id u"
    using that row by (simp add: accs accounts_of_def clear_defaults_other)
  show "single_default uid d'" if inv: "single_default uid d"
  proof (cases "uid = user_id u")
    case True
    from row have ne: "accounts_of (user_id u) d' \<noteq> []"
      by (simp add: accounts_of_def)
    show ?thesis
    proof (cases flag)
      case True
      with row one ne \<open>uid = user_id u\<close> show ?thesis
        by (simp add: ar single_default_def)
    next
      case False
      then have "accounts_of (user_id u) d \<noteq> []"
        by (simp add: flag_def)
      with inv \<open>uid = user_id u\<close> have "length (defaults_of (user_id u) d) = 1"
        by (simp add: single_default_def)
      with False row one ne \<open>uid = user_id u\<close> show ?thesis
        by (simp add: ar single_default_def)
    qed
  next
    case False
    from other [OF False] inv show ?thesis
      by (simp add: single_default_def defaults_of_def)
  qed
qed


lemma no_caller_no_change:
  assumes "calling_user c d = None"
  shows "snd (updateDefaultAccount c d aid) = d" "snd (createAccount parseFloat c d data) = d"
proof -
  show "snd (updateDefaultAccount c d aid) = d"
  proof (cases "auth c")
    case (Inl e)
    then show ?thesis by (simp add: updateDefaultAccount_def)
  next
    case (Inr userId)
    with assms have "find (\<lambda>u. clerkUserId u = userId) (users d) = None"
      by (simp add: calling_user_def)
    with Inr show ?thesis
      by (simp add: updateDefaultAccount_def user_findUnique_def)
  qed
  show "snd (createAccount parseFloat c d data) = d"
  proof (cases "auth c")
    case (Inl e)
    then show ?thesis by (simp add: createAccount_def)
  next
    case (Inr userId)
    with assms have "find (\<lambda>u. clerkUserId u = userId) (users d) = None"
      by (simp add: calling_user_def)
    with Inr show ?thesis
      by (cases "arcjet c") (simp_all add: createAccount_def user_findUnique_def)
  qed
qed

lemma createAccount_failure:
  assumes u: "calling_user c d = Some u"
    and failed: "isl (fst (createAccount parseFloat c d data))"
  shows "snd (createAccount parseFloat c d data) = d
       \<or> snd (createAccount parseFloat c d data)
           = d\<lparr>accounts := clear_defaults (user_id u) (accounts d)\<rparr>"
proof -
  from u obtain userId where au: "auth c = Inr userId"
    and fu: "find (\<lambda>u. clerkUserId u = userId) (users d) = Some u"
    by (rule calling_userD)
  show ?thesis
  proof (cases "arcjet c = Allowed \<and> \<not> fails c FindUser \<and> \<not> fails c FindAccounts
                \<and> parseFloat (d_balance data) \<noteq> None")
    case False
    then have "snd (createAccount parseFloat c d data) = d"
      by (cases "arcjet c"; cases "parseFloat (d_balance data)")
         (auto simp: createAccount_def au fu user_findUnique_def account_findMany_def)
    then show ?thesis ..
  next
    case True
    then obtain b where b: "parseFloat (d_balance data) = Some b" by auto
    define flag where "flag = (accounts_of (user_id u) d = [] \<or> d_isDefault data)"
    from True have ok: "arcjet c = Allowed" "\<not> fails c FindUser" "\<not> fails c FindAccounts"
      by simp_all
    note run = createAccount_run [of c d u parseFloat data b flag, OF u ok b flag_def]
    show ?thesis
    proof (cases "if flag then account_updateMany c (user_id u) d else Inr d")
      case (Inl e)
      with run show ?thesis by simp
    next
      case (Inr d1)
      then have d1: "d1 = d \<or> d1 = d\<lparr>accounts := clear_defaults (user_id u) (accounts d)\<rparr>"
        by (auto dest: account_updateMany_accounts split: if_splits)
      show ?thesis
      proof (cases "account_create c data b (user_id u) flag d1")
        case (Inl e)
        with run Inr d1 show ?thesis by auto
      next
        case created: (Inr p)
        with run Inr failed show ?thesis
          by (cases p) simp
      qed
    qed
  qed
qed

text \<open>
  Whatever the outcome, failures included, neither action ever gives a user a second
  default.
\<close>

lemma never_two_defaults:
  assumes "length (defaults_of uid d) \<le> 1"
  shows "length (defaults_of uid (snd (updateDefaultAccount c d aid))) \<le> 1"
    and "length (defaults_of uid (snd (createAccount parseFloat c d data))) \<le> 1"
proof -
  have cleared: "length (defaults_of uid (d\<lparr>accounts := clear_defaults v (accounts d)\<rparr>)) \<le> 1" for v
  proof (cases "uid = v")
    case True
    then show ?thesis
      by (simp add: defaults_of_accounts clear_defaults_own_conj)
  next
    case False
    with assms show ?thesis
      by (simp add: defaults_of_def accounts_of_def clear_defaults_other [OF False]
            del: filter_filter)
  qed
  show "length (defaults_of uid (snd (updateDefaultAccount c d aid))) \<le> 1"
  proof (cases "calling_user c d")
    case None
    with assms show ?thesis by (simp add: no_caller_no_change)
  next
    case (Some u)
    then show ?thesis
    proof (cases rule: updateDefaultAccount_outcome [of c d u aid])
      case (unchanged e)
      with assms show ?thesis by simp
    next
      case (cleared e)
      with \<open>\<And>v. length (defaults_of uid (d\<lparr>accounts := clear_defaults v (accounts d)\<rparr>)) \<le> 1\<close>
      show ?thesis by simp
    next
      case (switched a accs)
      note r = switch_success_single_default [OF switched(1) Some]
      show ?thesis
      proof (cases "uid = user_id u")
        case True
        with r(1) switched(1) show ?thesis by simp
      next
        case False
        from r(3) [OF False] assms switched(1) show ?thesis
          by (simp add: defaults_of_def)
      qed
    qed
  qed
  show "length (defaults_of uid (snd (createAccount parseFloat c d data))) \<le> 1"
  proof (cases "calling_user c d")
    case None
    with assms show ?thesis by (simp add: no_caller_no_change)
  next
    case (Some u)
    show ?thesis
    proof (cases "isl (fst (createAccount parseFloat c d data))")
      case True
      from createAccount_failure [OF Some True] assms cleared show ?thesis
        by auto
    next
      case False
      then obtain a d' where ok: "createAccount parseFloat c d data = (Inr a, d')"
        by (cases "createAccount parseFloat c d data"; cases "fst (createAccount parseFloat c d data)")
           auto
      note r = create_success_single_default [OF ok Some]
      show ?thesis
      proof (cases "uid = user_id u")
        case True
        with r(1) ok assms show ?thesis by simp
      next
        case False
        from r(2) [OF False] assms ok show ?thesis
          by (simp add: defaults_of_def)
      qed
    qed
  qed
qed

section \<open>Where the balances are conserved\<close>

text \<open>
  Reading back the digits written for a natural number gives the number, so the string
  \<open>0\<close> followed by a non-negative amount is a numeral of that amount: the first change
  the reducer records for an account is always a value the store reads as the
  reversal delta of the transaction.
\<close>

lemma digit_val_nth:
  assumes "k < 10"
  shows "digit_val (''0123456789'' ! k) = Some k"
proof -
  from assms have "k \<in> {0, 1, 2, 3, 4, 5, 6, 7, 8, 9}" by auto
  then show ?thesis
    by (auto simp: digit_val_def upt_conv_Cons)
qed

lemma parse_digits_digits:
  "parse_digits acc (digits n @ rest) = parse_digits (acc * 10 ^ length (digits n) + n) rest"
proof (induction n arbitrary: acc rest rule: digits.induct)
  case (1 n)
  show ?case
  proof (cases "n < 10")
    case True
    then show ?thesis
      by (subst (1 2) digits.simps) (simp add: digit_val_nth mult.commute)
  next
    case False
    have m: "n mod 10 < 10" by simp
    have "parse_digits acc (digits n @ rest)
          = parse_digits acc (digits (n div 10) @ (''0123456789'' ! (n mod 10)) # rest)"
      using False by (subst digits.simps) simp
    also have "\<dots> = parse_digits (acc * 10 ^ length (digits (n div 10)) + n div 10)
                       ((''0123456789'' ! (n mod 10)) # rest)"
      using False by (rule "1.IH")
    also have "\<dots> = parse_digits
                       (10 * (acc * 10 ^ length (digits (n div 10)) + n div 10) + n mod 10) rest"
      by (simp add: digit_val_nth [OF m])
    also have "10 * (acc * 10 ^ length (digits (n div 10)) + n div 10) + n mod 10
               = acc * 10 ^ length (digits n) + n"
      using False by (subst (2) digits.simps) (simp add: algebra_simps)
    finally show ?thesis .
  qed
qed

lemma digits_nonempty: "digits n \<noteq> []"
  by (subst digits.simps) simp

lemma parse_zero_digits: "parse_decimal (CHR ''0'' # digits n) = Some (int n)"
proof -
  have "parse_digits 0 (digits n @ []) = parse_digits (0 * 10 ^ length (digits n) + n) []"
    by (rule parse_digits_digits)
  then have "parse_digits 0 (digits n) = Some n" by simp
  then show ?thesis
    by (simp add: parse_decimal_def parse_nat_def digit_val_def upt_conv_Cons)
qed

lemma first_change:
  assumes "0 \<le> amount t"
  shows "decimal_input (js_plus (js_or_zero None) (change t)) = Some (reversal_delta t)"
proof (cases "tx_type t = EXPENSE")
  case True
  have "digits 0 = ''0''" by (subst digits.simps) simp
  with True assms show ?thesis
    by (simp add: change_def js_plus_def js_or_zero_def toPrimitive_def toString_def valueOf_def
          show_int_def decimal_input_def reversal_delta_def parse_zero_digits)
next
  case False
  then show ?thesis
    by (simp add: change_def js_plus_def js_or_zero_def toPrimitive_def decimal_input_def
          reversal_delta_def)
qed


text \<open>
  When no two resolved transactions share an account, the reducer never meets a key
  twice, and every account id is incremented once.
\<close>

lemma assign_fresh:
  "k \<notin> fst ` set acc \<Longrightarrow> assign k v acc = acc @ [(k, v)] \<and> map_of acc k = None"
  by (induction acc) (auto simp: map_of_eq_None_iff)

lemma changes_of_distinct_accounts:
  assumes "distinct (map tx_accountId txs)"
    and "set (map tx_accountId txs) \<inter> fst ` set acc = {}"
  shows "foldl (\<lambda>acc t. assign (tx_accountId t)
                  (js_plus (js_or_zero (map_of acc (tx_accountId t))) (change t)) acc) acc txs
         = acc @ map (\<lambda>t. (tx_accountId t, js_plus (js_or_zero None) (change t))) txs"
  using assms
proof (induction txs arbitrary: acc)
  case Nil
  show ?case by simp
next
  case (Cons t txs)
  from Cons.prems have fresh: "tx_accountId t \<notin> fst ` set acc" by auto
  let ?v = "js_plus (js_or_zero None) (change t)"
  have d: "distinct (map tx_accountId txs)" using Cons.prems by simp
  have i: "set (map tx_accountId txs) \<inter> fst ` set (acc @ [(tx_accountId t, ?v)]) = {}"
    using Cons.prems by auto
  from Cons.IH [OF d i] assign_fresh [OF fresh] show ?case
    by simp
qed

lemma update_first_distinct:
  fixes accs :: "account list"
  assumes "distinct (map acc_id accs)" and "k \<in> set (map acc_id accs)"
  shows "\<exists>a. update_first (\<lambda>a. acc_id a = k) f accs
             = Some (a, map (\<lambda>a. if acc_id a = k then f a else a) accs)"
  using assms
proof (induction accs)
  case Nil
  then show ?case by simp
next
  case (Cons x xs)
  show ?case
  proof (cases "acc_id x = k")
    case True
    with Cons.prems have "k \<notin> set (map acc_id xs)" by simp
    then have "\<forall>y \<in> set xs. acc_id y \<noteq> k" by auto
    then have "map (\<lambda>a. if acc_id a = k then f a else a) xs = xs"
      by (induction xs) auto
    with True show ?thesis by simp
  next
    case False
    with Cons.prems Cons.IH show ?thesis by auto
  qed
qed

lemma apply_changes_distinct:
  fixes txs :: "transaction list"
  assumes nf: "\<forall>k. \<not> fails c (UpdateBalance k)"
    and ids: "distinct (map acc_id (accounts d))"
    and known: "set (map tx_accountId txs) \<subseteq> set (map acc_id (accounts d))"
    and deltas: "\<forall>t \<in> set txs. decimal_input (v t) = Some (delta t)"
  shows "\<exists>accs. apply_changes c (map (\<lambda>t. (tx_accountId t, v t)) txs) d = Inr (d\<lparr>accounts := accs\<rparr>)
           \<and> map acc_id accs = map acc_id (accounts d)
           \<and> map balance accs
              = map (\<lambda>a. balance a
                       + sum_list (map delta (filter (\<lambda>t. tx_accountId t = acc_id a) txs)))
                  (accounts d)"
  using ids known deltas
proof (induction txs arbitrary: d)
  case Nil
  have "d\<lparr>accounts := accounts d\<rparr> = d" by simp
  then show ?case
    by (intro exI [of _ "accounts d"]) simp
next
  case (Cons t txs)
  let ?k = "tx_accountId t"
  let ?f = "\<lambda>a. a\<lparr>balance := balance a + delta t\<rparr>"
  let ?accs1 = "map (\<lambda>a. if acc_id a = ?k then ?f a else a) (accounts d)"
  let ?d1 = "d\<lparr>accounts := ?accs1\<rparr>"
  from Cons.prems have k: "?k \<in> set (map acc_id (accounts d))" by simp
  from update_first_distinct [OF Cons.prems(1) k, of ?f] Cons.prems(3) nf
  have step: "account_increment c ?k (v t) d = Inr ?d1"
    by (auto simp: account_increment_def)
  have ids1: "map acc_id (accounts ?d1) = map acc_id (accounts d)"
    by (simp add: comp_def if_distrib cong: if_cong)
  have "distinct (map acc_id (accounts ?d1))"
    using Cons.prems(1) by (simp only: ids1)
  moreover have "set (map tx_accountId txs) \<subseteq> set (map acc_id (accounts ?d1))"
    using Cons.prems(2) unfolding ids1 by simp
  moreover have "\<forall>t \<in> set txs. decimal_input (v t) = Some (delta t)"
    using Cons.prems(3) by simp
  ultimately obtain accs where
    run: "apply_changes c (map (\<lambda>t. (tx_accountId t, v t)) txs) ?d1 = Inr (?d1\<lparr>accounts := accs\<rparr>)"
    and same: "map acc_id accs = map acc_id (accounts ?d1)"
    and bal: "map balance accs
              = map (\<lambda>a. balance a
                       + sum_list (map delta (filter (\<lambda>t. tx_accountId t = acc_id a) txs)))
                  (accounts ?d1)"
    using Cons.IH [of ?d1] by blast
  have "apply_changes c (map (\<lambda>t. (tx_accountId t, v t)) (t # txs)) d = Inr (d\<lparr>accounts := accs\<rparr>)"
    using step run by simp
  moreover have "map acc_id accs = map acc_id (accounts d)"
    using same ids1 by simp
  moreover have "map balance accs
              = map (\<lambda>a. balance a
                       + sum_list (map delta (filter (\<lambda>t. tx_accountId t = acc_id a) (t # txs))))
                  (accounts d)"
    unfolding bal by (induction "accounts d") auto
  ultimately show ?case by blast
qed


text \<open>
  Conservation in the case the concatenation cannot arise.  If the store rejects
  nowhere, account ids are distinct, the resolved transactions have non-negative amounts
  below \<open>2 ^ 53\<close> and lie on pairwise different, existing accounts, then the bulk
  delete succeeds and every balance moves by the reversal deltas of the deleted
  transactions on that account.
\<close>

lemma conservation_one_transaction_per_account:
  assumes u: "calling_user c d = Some u"
    and nf: "\<forall>s. \<not> fails c s"
    and dist: "distinct (map acc_id (accounts d))"
    and one: "distinct (map tx_accountId (resolved (user_id u) ids d))"
    and known: "set (map tx_accountId (resolved (user_id u) ids d)) \<subseteq> set (map acc_id (accounts d))"
    and pos: "\<forall>t \<in> set (resolved (user_id u) ids d). 0 \<le> amount t \<and> amount t < 2 ^ 53"
  shows "\<exists>d'. bulkDeleteTransactions c d ids = (Inr (), d')
     \<and> map acc_id (accounts d') = map acc_id (accounts d)
     \<and> map balance (accounts d')
        = map (\<lambda>a. balance a + sum_list (map reversal_delta
                 (filter (\<lambda>t. tx_accountId t = acc_id a) (resolved (user_id u) ids d))))
            (accounts d)"
proof -
  define txs where "txs = resolved (user_id u) ids d"
  define v where "v = (\<lambda>t. js_plus (js_or_zero None) (change t))"
  have sel: "filter (\<lambda>t. tx_id t \<in> set ids \<and> tx_userId t = user_id u) (transactions d) = txs"
    by (simp add: txs_def resolved_def)
  have chs: "accountBalanceChanges txs = map (\<lambda>t. (tx_accountId t, v t)) txs"
    using changes_of_distinct_accounts [of txs "[]"] one
    by (simp add: accountBalanceChanges_def txs_def v_def)
  have "\<forall>t \<in> set txs. decimal_input (v t) = Some (reversal_delta t)"
    using pos by (simp add: txs_def v_def first_change)
  with nf dist known obtain accs where
    run: "apply_changes c (map (\<lambda>t. (tx_accountId t, v t)) txs) d = Inr (d\<lparr>accounts := accs\<rparr>)"
    and same: "map acc_id accs = map acc_id (accounts d)"
    and bal: "map balance accs
              = map (\<lambda>a. balance a
                       + sum_list (map reversal_delta (filter (\<lambda>t. tx_accountId t = acc_id a) txs)))
                  (accounts d)"
    using apply_changes_distinct [of c d txs v reversal_delta]
    unfolding txs_def by blast
  from nf have nf3: "\<not> fails c FindUser" "\<not> fails c FindTransactions" "\<not> fails c DeleteTransactions"
    by simp_all
  have "d\<lparr>transactions := transactions d\<rparr> = d" by simp
  with bulkDelete_run [OF u nf3 sel] run chs
  have "bulkDeleteTransactions c d ids
        = (Inr (), d\<lparr>accounts := accs, transactions :=
             filter (\<lambda>t. \<not> (tx_id t \<in> set ids \<and> tx_userId t = user_id u)) (transactions d)\<rparr>)"
    by simp
  with same bal show ?thesis
    unfolding txs_def by simp
qed

end
